theory Spec2Isabelle
  imports Main "HOL-Library.Word"
begin

unbundle bit_operations_syntax

section \<open>Data model\<close>

subsection \<open>Tree nodes on the heap\<close>

text \<open>
  \<^verbatim>\<open>Node\<close> is the struct of Tree.h: a character and two child pointers. A pointer to a
  node is an address or NULL: \<open>nat option\<close>, \<open>None\<close> for NULL.
\<close>

record Node =
  data :: char
  leftChild :: "nat option"
  rightChild :: "nat option"

text \<open>
  The heap is the sequence of the node cells handed out so far: the address of a cell is
  its index, and \<open>calls\<close> counts the calls of \<^verbatim>\<open>malloc\<close>. What \<^verbatim>\<open>malloc\<close> answers is
  not decided by the program, so it is a parameter: call number \<open>i\<close> fails when
  \<open>mal i = None\<close> and otherwise yields a fresh cell whose contents \<open>mal i = Some junk\<close>
  are indeterminate. This heap describes the runs in which every block that \<^verbatim>\<open>malloc\<close>
  grants has room for one \<^verbatim>\<open>Node\<close>. The source asks for \<^verbatim>\<open>sizeof (tree)\<close>, the size of
  a pointer, and an allocator may grant no more than that: the section on addresses and
  sizes below models \<^verbatim>\<open>malloc\<close> with the requested size and the fields of a node as
  words of memory, for the runs in which the blocks are smaller than a \<^verbatim>\<open>Node\<close>.
\<close>

record heap =
  cells :: "Node list"
  calls :: nat

type_synonym allocator = "nat \<Rightarrow> Node option"

definition malloc :: "allocator \<Rightarrow> heap \<Rightarrow> nat option \<times> heap" where
  "malloc mal h =
     (case mal (calls h) of
        None \<Rightarrow> (None, h\<lparr>calls := calls h + 1\<rparr>)
      | Some junk \<Rightarrow>
          (Some (length (cells h)), \<lparr>cells = cells h @ [junk], calls = calls h + 1\<rparr>))"

text \<open>The three field assignments \<^verbatim>\<open>tree->data = c\<close>, \<^verbatim>\<open>tree->leftChild = p\<close> and
  \<^verbatim>\<open>tree->rightChild = p\<close> on an allocated cell.\<close>

definition set_data :: "nat \<Rightarrow> char \<Rightarrow> heap \<Rightarrow> heap" where
  "set_data t c h = h\<lparr>cells := (cells h)[t := (cells h ! t)\<lparr>data := c\<rparr>]\<rparr>"

definition set_leftChild :: "nat \<Rightarrow> nat option \<Rightarrow> heap \<Rightarrow> heap" where
  "set_leftChild t p h = h\<lparr>cells := (cells h)[t := (cells h ! t)\<lparr>leftChild := p\<rparr>]\<rparr>"

definition set_rightChild :: "nat \<Rightarrow> nat option \<Rightarrow> heap \<Rightarrow> heap" where
  "set_rightChild t p h = h\<lparr>cells := (cells h)[t := (cells h ! t)\<lparr>rightChild := p\<rparr>]\<rparr>"

subsection \<open>Constants of the headers\<close>

text \<open>
  \<^verbatim>\<open>SUCCESS\<close> and \<^verbatim>\<open>STANDARD_ERROR\<close> come from BOARD.h, which is not among the sources:
  they are parameters of the model.
\<close>

record BOARD =
  SUCCESS :: int
  STANDARD_ERROR :: int

text \<open>
  The values of the enum \<^verbatim>\<open>MorseChar\<close> of Morse.h: the four the code names, and
  \<open>MORSE_CHAR_OTHER v\<close> for any other value \<open>v\<close> of the enum's integer type.
\<close>

datatype MorseChar =
    MORSE_CHAR_DOT
  | MORSE_CHAR_DASH
  | MORSE_CHAR_END_OF_CHAR
  | MORSE_CHAR_DECODE_RESET
  | MORSE_CHAR_OTHER int

datatype MorseEvent =
    MORSE_EVENT_NONE
  | MORSE_EVENT_DOT
  | MORSE_EVENT_DASH
  | MORSE_EVENT_INTER_LETTER
  | MORSE_EVENT_INTER_WORD

text \<open>
  Modelled from the spec: Buttons.h is not among the sources. The button source yields,
  once per tick, no event, Pressed (\<^verbatim>\<open>BUTTON_EVENT_4DOWN\<close>) or Released
  (\<^verbatim>\<open>BUTTON_EVENT_4UP\<close>); the code only compares the sample with these two constants.
\<close>

datatype ButtonEvent =
    BUTTON_EVENT_NONE
  | BUTTON_EVENT_4UP
  | BUTTON_EVENT_4DOWN

text \<open>
  The tick thresholds of Morse.h, which is not among the sources, are parameters. The
  counter is an \<^verbatim>\<open>int\<close>, 32 bits wide on the target, and is compared as a signed value.
\<close>

record MorseEventLength =
  MORSE_EVENT_LENGTH_DOWN_DASH :: "32 word"
  MORSE_EVENT_LENGTH_UP_INTER_LETTER :: "32 word"
  MORSE_EVENT_LENGTH_UP_INTER_WORD :: "32 word"

text \<open>
  Modelled from the spec: the thresholds at 100 Hz, 50 ticks for the dash hold, 100 for
  the letter gap and 200 for the word gap.
\<close>

definition lengths_100Hz :: MorseEventLength where
  "lengths_100Hz =
     \<lparr>MORSE_EVENT_LENGTH_DOWN_DASH = 50,
      MORSE_EVENT_LENGTH_UP_INTER_LETTER = 100,
      MORSE_EVENT_LENGTH_UP_INTER_WORD = 200\<rparr>"

section \<open>Tree.c\<close>

text \<open>
  \<^verbatim>\<open>TreeCreate(level, data)\<close>. The argument \<^verbatim>\<open>data\<close> is a pointer: \<open>mem\<close> is the memory
  it points into and \<open>ptr\<close> the address, so that \<^verbatim>\<open>*data\<close> is \<open>mem ptr\<close>. The level
  is a natural number: from a negative level the recursion never reaches its base case.
  \<^verbatim>\<open>1 << (level - 1)\<close> is \<open>2 ^ (level - 1)\<close>, which is exact for the levels below 32.
  The assignments are made in the order of the source, the children after the recursive
  call that computes them.
\<close>

fun TreeCreate :: "allocator \<Rightarrow> nat \<Rightarrow> (nat \<Rightarrow> char) \<Rightarrow> nat \<Rightarrow> heap \<Rightarrow> nat option \<times> heap" where
  "TreeCreate mal level mem ptr h =
     (case malloc mal h of
        (None, h1) \<Rightarrow> (None, h1)
      | (Some tree, h1) \<Rightarrow>
          let h2 = set_data tree (mem ptr) h1 in
          if level = 0 then
            (Some tree, set_rightChild tree None (set_leftChild tree None h2))
          else
            let (l, h3) = TreeCreate mal (level - 1) mem (ptr + 1) h2;
                h4 = set_leftChild tree l h3;
                (r, h5) = TreeCreate mal (level - 1) mem (ptr + 2 ^ (level - 1)) h4;
                h6 = set_rightChild tree r h5
            in (Some tree, h6))"

declare TreeCreate.simps [simp del]

text \<open>An array in memory: the bytes of \<open>xs\<close> from address 0 on, and \<open>past\<close> behind them.\<close>

definition array_mem :: "char list \<Rightarrow> char \<Rightarrow> nat \<Rightarrow> char" where
  "array_mem xs past i = (if i < length xs then xs ! i else past)"

text \<open>
  Reading a tree back from the heap, top-down and left to right, as the comment of
  \<^verbatim>\<open>TreeCreate\<close> orders the serialized data. The first argument bounds the depth that is
  followed; a NULL pointer and an address outside the heap contribute nothing.
\<close>

fun serialize :: "nat \<Rightarrow> Node list \<Rightarrow> nat option \<Rightarrow> char list" where
  "serialize 0 cs p = []"
| "serialize (Suc d) cs None = []"
| "serialize (Suc d) cs (Some a) =
     (if a < length cs
      then data (cs ! a) # serialize d cs (leftChild (cs ! a)) @ serialize d cs (rightChild (cs ! a))
      else [])"

section \<open>Morse.c: the decoder\<close>

text \<open>The globals \<^verbatim>\<open>chartree\<close> and \<^verbatim>\<open>temp\<close>, and the heap they point into.\<close>

record decoder =
  heap :: heap
  chartree :: "nat option"
  temp :: "nat option"

text \<open>Dereferencing a pointer: NULL and an address outside the heap are faults.\<close>

datatype fault = NullDereference | WildDereference

definition deref :: "heap \<Rightarrow> nat option \<Rightarrow> fault + Node" where
  "deref h p =
     (case p of
        None \<Rightarrow> Inl NullDereference
      | Some a \<Rightarrow> if a < length (cells h) then Inr (cells h ! a) else Inl WildDereference)"

definition NUL :: char where
  "NUL = CHR 0x00"

text \<open>The array \<^verbatim>\<open>tree[63]\<close> of \<^verbatim>\<open>MorseInit\<close>.\<close>

definition MorseTable :: "char list" where
  "MorseTable =
     [NUL, CHR ''E'', CHR ''I'', CHR ''S'', CHR ''H'', CHR ''5'', CHR ''4'', CHR ''V'',
      NUL, CHR ''3'', CHR ''U'', CHR ''F'', NUL, NUL, NUL, NUL, CHR ''2'',
      CHR ''A'', CHR ''R'', CHR ''L'', NUL, NUL, NUL, NUL, NUL, CHR ''W'', CHR ''P'',
      NUL, NUL, CHR ''J'', NUL, CHR ''1'',
      CHR ''T'', CHR ''N'', CHR ''D'', CHR ''B'', CHR ''6'', NUL, CHR ''X'', NUL, NUL,
      CHR ''K'', CHR ''C'', NUL, NUL, CHR ''Y'', NUL, NUL,
      CHR ''M'', CHR ''G'', CHR ''Z'', CHR ''7'', NUL, CHR ''Q'', NUL, NUL, CHR ''O'',
      NUL, CHR ''8'', NUL, NUL, CHR ''9'', CHR ''0'']"

text \<open>
  \<^verbatim>\<open>MorseInit\<close>. \<^verbatim>\<open>ButtonsInit\<close> belongs to the button source and touches none of the
  globals. \<^verbatim>\<open>TreeCreate(6, tree)\<close> reads \<^verbatim>\<open>tree[0]\<close> to \<^verbatim>\<open>tree[63]\<close>, one byte more than
  the array holds; the byte behind the array is the parameter \<open>past\<close>.
\<close>

definition MorseInit :: "BOARD \<Rightarrow> allocator \<Rightarrow> char \<Rightarrow> decoder \<Rightarrow> int \<times> decoder" where
  "MorseInit b mal past s =
     (let (t, h) = TreeCreate mal 6 (array_mem MorseTable past) 0 (heap s);
          s1 = s\<lparr>heap := h, chartree := t\<rparr>
      in if chartree s1 = None then (STANDARD_ERROR b, s1)
         else (SUCCESS b, s1\<lparr>temp := chartree s1\<rparr>))"

text \<open>
  \<^verbatim>\<open>MorseDecode\<close>. The result is a \<^verbatim>\<open>char\<close>: the status constants are converted to it,
  the decoded character is returned as it is.
\<close>

definition MorseDecode :: "BOARD \<Rightarrow> MorseChar \<Rightarrow> decoder \<Rightarrow> fault + (char \<times> decoder)" where
  "MorseDecode b inp s =
     (if inp = MORSE_CHAR_DOT then
        (case deref (heap s) (temp s) of
           Inl e \<Rightarrow> Inl e
         | Inr n \<Rightarrow>
             if leftChild n = None then Inr (char_of (STANDARD_ERROR b), s)
             else Inr (char_of (SUCCESS b), s\<lparr>temp := leftChild n\<rparr>))
      else if inp = MORSE_CHAR_DASH then
        (case deref (heap s) (temp s) of
           Inl e \<Rightarrow> Inl e
         | Inr n \<Rightarrow>
             if rightChild n = None then Inr (char_of (STANDARD_ERROR b), s)
             else Inr (char_of (SUCCESS b), s\<lparr>temp := rightChild n\<rparr>))
      else if inp = MORSE_CHAR_END_OF_CHAR then
        (case deref (heap s) (temp s) of
           Inl e \<Rightarrow> Inl e
         | Inr n \<Rightarrow> Inr (data n, s\<lparr>temp := chartree s\<rparr>))
      else if inp = MORSE_CHAR_DECODE_RESET then
        Inr (char_of (SUCCESS b), s\<lparr>temp := chartree s\<rparr>)
      else Inr (char_of (STANDARD_ERROR b), s))"

text \<open>A sequence of calls of \<^verbatim>\<open>MorseDecode\<close>: the results in order and the last state. A
  fault ends the run.\<close>

fun MorseDecode_seq :: "BOARD \<Rightarrow> MorseChar list \<Rightarrow> decoder \<Rightarrow> fault + (char list \<times> decoder)" where
  "MorseDecode_seq b [] s = Inr ([], s)"
| "MorseDecode_seq b (i # is) s =
     (case MorseDecode b i s of
        Inl e \<Rightarrow> Inl e
      | Inr (c, s1) \<Rightarrow>
          (case MorseDecode_seq b is s1 of
             Inl e \<Rightarrow> Inl e
           | Inr (cs, s2) \<Rightarrow> Inr (c # cs, s2)))"

section \<open>Morse.c: the event detector\<close>

datatype MorseState = WAITING | DOT | DASH | INTER_LETTER

text \<open>The globals \<^verbatim>\<open>Mstate\<close>, \<^verbatim>\<open>first\<close> and \<^verbatim>\<open>increment\<close>.\<close>

record detector =
  Mstate :: MorseState
  first :: ButtonEvent
  increment :: "32 word"

definition detector_init :: detector where
  "detector_init = \<lparr>Mstate = WAITING, first = BUTTON_EVENT_NONE, increment = 0\<rparr>"

text \<open>
  \<^verbatim>\<open>MorseCheckEvents\<close>, one tick. \<open>btn\<close> is what \<^verbatim>\<open>ButtonsCheckEvents()\<close> returns on
  this tick. \<^verbatim>\<open>increment++\<close> wraps around at 32 bits. The calls of \<^verbatim>\<open>printf\<close> touch none
  of the globals.
\<close>

definition MorseCheckEvents ::
  "MorseEventLength \<Rightarrow> ButtonEvent \<Rightarrow> detector \<Rightarrow> MorseEvent \<times> detector" where
  "MorseCheckEvents len btn s0 =
     (let s = s0\<lparr>increment := increment s0 + 1, first := btn\<rparr> in
      case Mstate s of
        WAITING \<Rightarrow>
          (let s1 = s\<lparr>increment := 0\<rparr> in
           if first s1 = BUTTON_EVENT_4DOWN then (MORSE_EVENT_NONE, s1\<lparr>Mstate := DOT\<rparr>)
           else (MORSE_EVENT_NONE, s1\<lparr>Mstate := WAITING\<rparr>))
      | DOT \<Rightarrow>
          if first s = BUTTON_EVENT_4UP then
            (MORSE_EVENT_DOT, s\<lparr>increment := 0, Mstate := INTER_LETTER\<rparr>)
          else if MORSE_EVENT_LENGTH_DOWN_DASH len <s increment s then
            (MORSE_EVENT_NONE, s\<lparr>Mstate := DASH\<rparr>)
          else (MORSE_EVENT_NONE, s)
      | DASH \<Rightarrow>
          if first s = BUTTON_EVENT_4UP then
            (MORSE_EVENT_DASH, s\<lparr>increment := 0, Mstate := INTER_LETTER\<rparr>)
          else (MORSE_EVENT_NONE, s)
      | INTER_LETTER \<Rightarrow>
          if MORSE_EVENT_LENGTH_UP_INTER_LETTER len \<le>s increment s then
            (MORSE_EVENT_INTER_WORD, s\<lparr>Mstate := WAITING\<rparr>)
          else if first s = BUTTON_EVENT_4DOWN then
            (if MORSE_EVENT_LENGTH_UP_INTER_LETTER len \<le>s increment s then
               (MORSE_EVENT_INTER_LETTER, s\<lparr>increment := 0, Mstate := DOT\<rparr>)
             else (MORSE_EVENT_NONE, s\<lparr>increment := 0, Mstate := DOT\<rparr>))
          else (MORSE_EVENT_NONE, s))"

text \<open>Consecutive ticks: the events in order and the state after the last tick.\<close>

fun MorseCheckEvents_seq ::
  "MorseEventLength \<Rightarrow> ButtonEvent list \<Rightarrow> detector \<Rightarrow> MorseEvent list \<times> detector" where
  "MorseCheckEvents_seq len [] s = ([], s)"
| "MorseCheckEvents_seq len (btn # btns) s =
     (let (e, s1) = MorseCheckEvents len btn s;
          (es, s2) = MorseCheckEvents_seq len btns s1
      in (e # es, s2))"

section \<open>Predicates and concrete inputs\<close>

text \<open>A pointer is sound in a heap when it is NULL or the address of a cell.\<close>

definition ptr_ok :: "Node list \<Rightarrow> nat option \<Rightarrow> bool" where
  "ptr_ok cs p = (case p of None \<Rightarrow> True | Some a \<Rightarrow> a < length cs)"

text \<open>
  Every cell outside \<open>P\<close> has sound child pointers. \<open>P\<close> holds the cells whose
  children are still to be assigned while \<^verbatim>\<open>TreeCreate\<close> runs.
\<close>

definition closed_except :: "nat set \<Rightarrow> Node list \<Rightarrow> bool" where
  "closed_except P cs =
     (\<forall>a < length cs. a \<notin> P \<longrightarrow>
        ptr_ok cs (leftChild (cs ! a)) \<and> ptr_ok cs (rightChild (cs ! a)))"

text \<open>The heap \<open>cs'\<close> keeps every cell of \<open>cs\<close> as it is.\<close>

definition extends :: "Node list \<Rightarrow> Node list \<Rightarrow> bool" where
  "extends cs cs' = (length cs \<le> length cs' \<and> (\<forall>a < length cs. cs' ! a = cs ! a))"

text \<open>
  The nodes of the tree under \<open>root\<close>: the cells reached from the root by following
  child pointers.
\<close>

inductive in_tree :: "Node list \<Rightarrow> nat option \<Rightarrow> nat \<Rightarrow> bool"
  for cs :: "Node list" and root :: "nat option" where
  in_tree_root: "root = Some a \<Longrightarrow> a < length cs \<Longrightarrow> in_tree cs root a"
| in_tree_left:
    "in_tree cs root a \<Longrightarrow> leftChild (cs ! a) = Some c \<Longrightarrow> c < length cs \<Longrightarrow> in_tree cs root c"
| in_tree_right:
    "in_tree cs root a \<Longrightarrow> rightChild (cs ! a) = Some c \<Longrightarrow> c < length cs \<Longrightarrow> in_tree cs root c"

text \<open>The decoder is sound: the heap is closed and the cursor is on a node of the tree.\<close>

definition decoder_ok :: "decoder \<Rightarrow> bool" where
  "decoder_ok s =
     (closed_except {} (cells (heap s)) \<and>
      (\<exists>p. temp s = Some p \<and> in_tree (cells (heap s)) (chartree s) p))"

text \<open>
  The state at program start: nothing allocated, both globals NULL. One choice of the
  constants of BOARD.h, with \<^verbatim>\<open>STANDARD_ERROR\<close> equal to 0. An allocator that grants the
  first \<open>n\<close> requests and one that grants all of them; the cells they hand out hold
  \<open>junk\<close>.
\<close>

definition boot :: decoder where
  "boot = \<lparr>heap = \<lparr>cells = [], calls = 0\<rparr>, chartree = None, temp = None\<rparr>"

definition board0 :: BOARD where
  "board0 = \<lparr>SUCCESS = 1, STANDARD_ERROR = 0\<rparr>"

definition junk :: Node where
  "junk = \<lparr>data = CHR ''?'', leftChild = Some 4096, rightChild = Some 8192\<rparr>"

definition alloc_first :: "nat \<Rightarrow> allocator" where
  "alloc_first n i = (if i < n then Some junk else None)"

definition alloc_all :: allocator where
  "alloc_all i = Some junk"

section \<open>Tree.c and Morse.c on addresses and sizes\<close>

text \<open>
  Memory in words. A pointer is an address, 0 for NULL; a character is stored as its code.
  \<open>granted\<close> lists the addresses that \<^verbatim>\<open>malloc\<close> has returned, in order, and \<open>requests\<close>
  counts its calls; neither is read by the program.
\<close>

record memory =
  words :: "nat \<Rightarrow> nat"
  granted :: "nat list"
  requests :: nat

text \<open>
  Tree.h is not among the sources, so the layout of \<^verbatim>\<open>Node\<close> is a parameter: the size of
  a pointer and the offset of each field, in words.
\<close>

record Layout =
  sizeof_pointer :: nat
  offset_data :: nat
  offset_leftChild :: nat
  offset_rightChild :: nat

text \<open>
  \<^verbatim>\<open>malloc(n)\<close>. The allocator is a parameter: for call number \<open>i\<close> and a request of
  \<open>n\<close> words it answers the address of the block, or 0 when it fails.
\<close>

type_synonym sized_allocator = "nat \<Rightarrow> nat \<Rightarrow> nat"

definition malloc_sized :: "sized_allocator \<Rightarrow> nat \<Rightarrow> memory \<Rightarrow> nat \<times> memory" where
  "malloc_sized mal n m =
     (let a = mal (requests m) n
      in (a, m\<lparr>granted := (if a = 0 then granted m else granted m @ [a]),
                requests := requests m + 1\<rparr>))"

text \<open>Writing one word.\<close>

definition store :: "nat \<Rightarrow> nat \<Rightarrow> memory \<Rightarrow> memory" where
  "store a v m = m\<lparr>words := (words m)(a := v)\<rparr>"

text \<open>
  \<^verbatim>\<open>TreeCreate\<close>, statement by statement. The request is \<^verbatim>\<open>sizeof (tree)\<close>, and \<^verbatim>\<open>tree\<close>
  is a pointer. \<^verbatim>\<open>tree->data\<close>, \<^verbatim>\<open>tree->leftChild\<close> and \<^verbatim>\<open>tree->rightChild\<close> are the words
  at the offsets of the fields from \<^verbatim>\<open>tree\<close>, inside the block or not.
\<close>

fun TreeCreate_mem ::
  "Layout \<Rightarrow> sized_allocator \<Rightarrow> nat \<Rightarrow> (nat \<Rightarrow> char) \<Rightarrow> nat \<Rightarrow> memory \<Rightarrow> nat \<times> memory" where
  "TreeCreate_mem L mal level mem ptr m =
     (case malloc_sized mal (sizeof_pointer L) m of
        (tree, m1) \<Rightarrow>
          if tree = 0 then (0, m1)
          else
            let m2 = store (tree + offset_data L) (of_char (mem ptr)) m1 in
            if level = 0 then
              (tree,
               store (tree + offset_rightChild L) 0 (store (tree + offset_leftChild L) 0 m2))
            else
              let (l, m3) = TreeCreate_mem L mal (level - 1) mem (ptr + 1) m2;
                  m4 = store (tree + offset_leftChild L) l m3;
                  (r, m5) = TreeCreate_mem L mal (level - 1) mem (ptr + 2 ^ (level - 1)) m4;
                  m6 = store (tree + offset_rightChild L) r m5
              in (tree, m6))"

declare TreeCreate_mem.simps [simp del]

text \<open>The globals \<^verbatim>\<open>chartree\<close> and \<^verbatim>\<open>temp\<close> as addresses, and the memory.\<close>

record decoder_mem =
  memory :: memory
  chartree_mem :: nat
  temp_mem :: nat

definition MorseInit_mem ::
  "Layout \<Rightarrow> BOARD \<Rightarrow> sized_allocator \<Rightarrow> char \<Rightarrow> decoder_mem \<Rightarrow> int \<times> decoder_mem" where
  "MorseInit_mem L b mal past s =
     (let (t, m) = TreeCreate_mem L mal 6 (array_mem MorseTable past) 0 (memory s);
          s1 = s\<lparr>memory := m, chartree_mem := t\<rparr>
      in if chartree_mem s1 = 0 then (STANDARD_ERROR b, s1)
         else (SUCCESS b, s1\<lparr>temp_mem := chartree_mem s1\<rparr>))"

text \<open>
  \<^verbatim>\<open>MorseDecode\<close>. Reading a field through a NULL \<^verbatim>\<open>temp\<close> is a fault; through any other
  address it reads the word that is there.
\<close>

definition MorseDecode_mem ::
  "Layout \<Rightarrow> BOARD \<Rightarrow> MorseChar \<Rightarrow> decoder_mem \<Rightarrow> fault + (char \<times> decoder_mem)" where
  "MorseDecode_mem L b inp s =
     (if inp = MORSE_CHAR_DOT then
        (if temp_mem s = 0 then Inl NullDereference
         else if words (memory s) (temp_mem s + offset_leftChild L) = 0 then
           Inr (char_of (STANDARD_ERROR b), s)
         else
           Inr (char_of (SUCCESS b),
                s\<lparr>temp_mem := words (memory s) (temp_mem s + offset_leftChild L)\<rparr>))
      else if inp = MORSE_CHAR_DASH then
        (if temp_mem s = 0 then Inl NullDereference
         else if words (memory s) (temp_mem s + offset_rightChild L) = 0 then
           Inr (char_of (STANDARD_ERROR b), s)
         else
           Inr (char_of (SUCCESS b),
                s\<lparr>temp_mem := words (memory s) (temp_mem s + offset_rightChild L)\<rparr>))
      else if inp = MORSE_CHAR_END_OF_CHAR then
        (if temp_mem s = 0 then Inl NullDereference
         else
           Inr (char_of (words (memory s) (temp_mem s + offset_data L)),
                s\<lparr>temp_mem := chartree_mem s\<rparr>))
      else if inp = MORSE_CHAR_DECODE_RESET then
        Inr (char_of (SUCCESS b), s\<lparr>temp_mem := chartree_mem s\<rparr>)
      else Inr (char_of (STANDARD_ERROR b), s))"

fun MorseDecode_mem_seq ::
  "Layout \<Rightarrow> BOARD \<Rightarrow> MorseChar list \<Rightarrow> decoder_mem \<Rightarrow> fault + (char list \<times> decoder_mem)" where
  "MorseDecode_mem_seq L b [] s = Inr ([], s)"
| "MorseDecode_mem_seq L b (i # is) s =
     (case MorseDecode_mem L b i s of
        Inl e \<Rightarrow> Inl e
      | Inr (c, s1) \<Rightarrow>
          (case MorseDecode_mem_seq L b is s1 of
             Inl e \<Rightarrow> Inl e
           | Inr (cs, s2) \<Rightarrow> Inr (c # cs, s2)))"

text \<open>
  Modelled from the spec: Tree.h is not among the sources. A node holds its payload, its
  left child and its right child; here in this order, one word each, a pointer taking one
  word.
\<close>

definition layout_data_first :: Layout where
  "layout_data_first =
     \<lparr>sizeof_pointer = 1, offset_data = 0, offset_leftChild = 1, offset_rightChild = 2\<rparr>"

text \<open>
  An allocator that grants every request with exactly the words asked for, one block behind
  the other from \<open>base\<close> on. The state at program start over a memory \<open>w\<close>: nothing
  granted, both globals NULL.
\<close>

definition bump :: "nat \<Rightarrow> sized_allocator" where
  "bump base i n = base + i * n"

definition boot_mem :: "(nat \<Rightarrow> nat) \<Rightarrow> decoder_mem" where
  "boot_mem w =
     \<lparr>memory = \<lparr>words = w, granted = [], requests = 0\<rparr>, chartree_mem = 0, temp_mem = 0\<rparr>"

section \<open>The tree builder\<close>

lemmas TreeCreate_eval =
  TreeCreate.simps malloc_def set_data_def set_leftChild_def set_rightChild_def
  array_mem_def Let_def

lemma TreeCreate_fail:
  "mal (calls h) = None \<Longrightarrow> TreeCreate mal level mem ptr h = (None, h\<lparr>calls := calls h + 1\<rparr>)"
  by (subst TreeCreate.simps) (simp add: malloc_def)

lemma TreeCreate_leaf:
  "mal (calls h) = Some j \<Longrightarrow>
   TreeCreate mal 0 mem ptr h =
     (Some (length (cells h)),
      \<lparr>cells = cells h @ [\<lparr>data = mem ptr, leftChild = None, rightChild = None\<rparr>],
       calls = calls h + 1\<rparr>)"
  by (subst TreeCreate.simps)
     (simp add: malloc_def set_data_def set_leftChild_def set_rightChild_def)

lemma TreeCreate_node:
  "mal (calls h) = Some j \<Longrightarrow> 0 < level \<Longrightarrow>
   TreeCreate mal level mem ptr h =
     (let t = length (cells h);
          h2 = \<lparr>cells = cells h @ [j\<lparr>data := mem ptr\<rparr>], calls = calls h + 1\<rparr>;
          (l, h3) = TreeCreate mal (level - 1) mem (ptr + 1) h2;
          h4 = set_leftChild t l h3;
          (r, h5) = TreeCreate mal (level - 1) mem (ptr + 2 ^ (level - 1)) h4
      in (Some t, set_rightChild t r h5))"
  by (subst TreeCreate.simps) (simp add: malloc_def set_data_def Let_def)

text \<open>The call returns NULL exactly when its own allocation fails.\<close>

lemma TreeCreate_result:
  "fst (TreeCreate mal level mem ptr h) =
     (case mal (calls h) of None \<Rightarrow> None | Some j \<Rightarrow> Some (length (cells h)))"
proof (cases "mal (calls h)")
  case None
  then show ?thesis by (simp add: TreeCreate_fail)
next
  case (Some j)
  show ?thesis
  proof (cases "level = 0")
    case True
    with Some show ?thesis by (simp add: TreeCreate_leaf)
  next
    case False
    with Some show ?thesis by (simp add: TreeCreate_node Let_def split: prod.splits)
  qed
qed

text \<open>
  C1. For a height \<open>H\<close> and data of the right length, the tree that is built should
  serialize, top-down and left to right, to the data. The code does not do this. At level 1
  on \<^verbatim>\<open>"abc"\<close> (the \<open>2 ^ (H + 1) - 1\<close> elements of a tree of height 1) the right child is
  built from \<^verbatim>\<open>data + (1 << 0)\<close>, the element the left child holds, and the tree
  serializes to \<^verbatim>\<open>"abb"\<close>. At level 2 on \<^verbatim>\<open>"abc"\<close> (the \<open>2 ^ level - 1\<close> elements that the
  comment of the function asks for) seven nodes are built, two of them from the byte behind
  the array.
\<close>

theorem TreeCreate_serialization_differs:
  "(case TreeCreate alloc_all 1 (array_mem ''abc'' (CHR ''#'')) 0 (heap boot) of
      (r, h) \<Rightarrow> (r, cells h, serialize 2 (cells h) r)) =
     (Some 0,
      [\<lparr>data = CHR ''a'', leftChild = Some 1, rightChild = Some 2\<rparr>,
       \<lparr>data = CHR ''b'', leftChild = None, rightChild = None\<rparr>,
       \<lparr>data = CHR ''b'', leftChild = None, rightChild = None\<rparr>],
      ''abb'') \<and>
   (case TreeCreate alloc_all 2 (array_mem ''abc'' (CHR ''#'')) 0 (heap boot) of
      (r, h) \<Rightarrow> (r, length (cells h), serialize 3 (cells h) r)) =
     (Some 0, 7, ''abccc##'')"
  by (simp add: TreeCreate_eval alloc_all_def boot_def eval_nat_numeral)

text \<open>
  C2. When an allocation fails at any depth, the whole call should fail. The code returns
  NULL only when the allocation of the node itself fails: the results of the two recursive
  calls are stored and not tested. With an allocator that grants one request,
  \<^verbatim>\<open>TreeCreate(1, "abc")\<close> returns the root with two NULL children, and \<^verbatim>\<open>MorseInit\<close>
  returns \<^verbatim>\<open>SUCCESS\<close> with a tree of one node.
\<close>

theorem TreeCreate_child_failure_not_propagated:
  "TreeCreate (alloc_first 1) 1 (array_mem ''abc'' (CHR ''#'')) 0 (heap boot) =
     (Some 0,
      \<lparr>cells = [\<lparr>data = CHR ''a'', leftChild = None, rightChild = None\<rparr>], calls = 3\<rparr>) \<and>
   MorseInit board0 (alloc_first 1) (CHR ''#'') boot =
     (SUCCESS board0,
      \<lparr>heap = \<lparr>cells = [\<lparr>data = NUL, leftChild = None, rightChild = None\<rparr>], calls = 3\<rparr>,
       chartree = Some 0, temp = Some 0\<rparr>)"
  by (simp add: MorseInit_def TreeCreate_eval alloc_first_def boot_def MorseTable_def)

subsection \<open>The heap stays closed\<close>

lemma ptr_ok_mono: "ptr_ok cs p \<Longrightarrow> length cs \<le> length cs' \<Longrightarrow> ptr_ok cs' p"
  by (auto simp: ptr_ok_def split: option.splits)

lemma ptr_ok_append: "ptr_ok cs p \<Longrightarrow> ptr_ok (cs @ ds) p"
  by (erule ptr_ok_mono) simp

lemma ptr_ok_update [simp]: "ptr_ok (cs[t := n]) p = ptr_ok cs p"
  by (cases p) (simp_all add: ptr_ok_def)

lemma extends_refl: "extends cs cs"
  by (simp add: extends_def)

lemma extends_trans: "extends cs cs' \<Longrightarrow> extends cs' cs'' \<Longrightarrow> extends cs cs''"
  by (auto simp: extends_def)

lemma extends_append: "extends cs (cs @ ds)"
  by (simp add: extends_def nth_append)

lemma extends_update: "length cs \<le> t \<Longrightarrow> extends cs cs' \<Longrightarrow> extends cs (cs'[t := n])"
  by (auto simp: extends_def)

lemma closed_except_append:
  "closed_except P cs \<Longrightarrow> closed_except (insert (length cs) P) (cs @ [n])"
  by (auto simp: closed_except_def nth_append less_Suc_eq intro!: ptr_ok_append)

lemma closed_except_update:
  assumes "closed_except P cs" and "t \<in> P"
  shows "closed_except P (cs[t := n])"
  unfolding closed_except_def
proof (intro allI impI)
  fix a
  assume a: "a < length (cs[t := n])" "a \<notin> P"
  with assms(2) have "t \<noteq> a" by auto
  then have "cs[t := n] ! a = cs ! a" by simp
  with assms(1) a
  show "ptr_ok (cs[t := n]) (leftChild (cs[t := n] ! a)) \<and>
        ptr_ok (cs[t := n]) (rightChild (cs[t := n] ! a))"
    by (simp add: closed_except_def)
qed

lemma closed_except_finish:
  "closed_except (insert t P) cs \<Longrightarrow> ptr_ok cs (leftChild (cs ! t)) \<Longrightarrow>
   ptr_ok cs (rightChild (cs ! t)) \<Longrightarrow> closed_except P cs"
  by (auto simp: closed_except_def)

text \<open>
  Whatever the allocator answers, \<^verbatim>\<open>TreeCreate\<close> leaves the cells it found as they were,
  gives every cell it allocates sound child pointers, and returns a sound pointer.
\<close>

lemma TreeCreate_inv:
  "TreeCreate mal level mem ptr h = (r, h') \<Longrightarrow> closed_except P (cells h) \<Longrightarrow>
   extends (cells h) (cells h') \<and> closed_except P (cells h') \<and> ptr_ok (cells h') r"
proof (induction level arbitrary: ptr h r h' P)
  case 0
  show ?case
  proof (cases "mal (calls h)")
    case None
    with "0" show ?thesis by (auto simp: TreeCreate_fail extends_refl ptr_ok_def)
  next
    case (Some j)
    with "0.prems"(1) have r: "r = Some (length (cells h))"
      and h': "cells h' = cells h @ [\<lparr>data = mem ptr, leftChild = None, rightChild = None\<rparr>]"
      by (auto simp: TreeCreate_leaf)
    have "closed_except (insert (length (cells h)) P) (cells h')"
      unfolding h' by (rule closed_except_append [OF "0.prems"(2)])
    then have "closed_except P (cells h')"
      by (rule closed_except_finish) (simp_all add: h' ptr_ok_def)
    then show ?thesis by (simp add: r h' extends_append ptr_ok_def)
  qed
next
  case (Suc l)
  show ?case
  proof (cases "mal (calls h)")
    case None
    with Suc.prems show ?thesis by (auto simp: TreeCreate_fail extends_refl ptr_ok_def)
  next
    case (Some j)
    define t where "t = length (cells h)"
    define h2 where "h2 = \<lparr>cells = cells h @ [j\<lparr>data := mem ptr\<rparr>], calls = calls h + 1\<rparr>"
    obtain lc h3 where left: "TreeCreate mal l mem (ptr + 1) h2 = (lc, h3)"
      by (cases "TreeCreate mal l mem (ptr + 1) h2")
    define h4 where "h4 = set_leftChild t lc h3"
    obtain rc h5 where right: "TreeCreate mal l mem (ptr + 2 ^ l) h4 = (rc, h5)"
      by (cases "TreeCreate mal l mem (ptr + 2 ^ l) h4")
    from Suc.prems(1) Some left right have r: "r = Some t" and h': "h' = set_rightChild t rc h5"
      by (simp_all add: TreeCreate_node Let_def t_def h2_def h4_def)
    have c2: "closed_except (insert t P) (cells h2)"
      unfolding h2_def t_def using closed_except_append [OF Suc.prems(2)] by simp
    have e2: "extends (cells h) (cells h2)"
      by (simp add: h2_def extends_append)
    have t2: "t < length (cells h2)"
      by (simp add: h2_def t_def)
    from Suc.IH [OF left c2]
    have e3: "extends (cells h2) (cells h3)" and c3: "closed_except (insert t P) (cells h3)"
      and p3: "ptr_ok (cells h3) lc" by simp_all
    have cells4: "cells h4 = (cells h3)[t := (cells h3 ! t)\<lparr>leftChild := lc\<rparr>]"
      by (simp add: h4_def set_leftChild_def)
    have t3: "t < length (cells h3)"
      using t2 e3 by (simp add: extends_def)
    have c4: "closed_except (insert t P) (cells h4)"
      unfolding cells4 by (rule closed_except_update [OF c3]) simp
    have e4: "extends (cells h) (cells h4)"
      unfolding cells4
      by (rule extends_update) (simp_all add: t_def extends_trans [OF e2 e3])
    have l4: "leftChild (cells h4 ! t) = lc"
      using t3 by (simp add: cells4)
    from Suc.IH [OF right c4]
    have e5: "extends (cells h4) (cells h5)" and c5: "closed_except (insert t P) (cells h5)"
      and p5: "ptr_ok (cells h5) rc" by simp_all
    have t4: "t < length (cells h4)"
      using t3 by (simp add: cells4)
    have t5: "t < length (cells h5)"
      using t4 e5 by (simp add: extends_def)
    have l5: "leftChild (cells h5 ! t) = lc"
      using e5 t4 l4 by (simp add: extends_def)
    have len35: "length (cells h3) \<le> length (cells h5)"
      using e5 by (simp add: extends_def cells4)
    have cells': "cells h' = (cells h5)[t := (cells h5 ! t)\<lparr>rightChild := rc\<rparr>]"
      by (simp add: h' set_rightChild_def)
    have c6: "closed_except (insert t P) (cells h')"
      unfolding cells' by (rule closed_except_update [OF c5]) simp
    have "closed_except P (cells h')"
    proof (rule closed_except_finish [OF c6])
      show "ptr_ok (cells h') (leftChild (cells h' ! t))"
        using t5 l5 ptr_ok_mono [OF p3 len35] by (simp add: cells')
      show "ptr_ok (cells h') (rightChild (cells h' ! t))"
        using t5 p5 by (simp add: cells')
    qed
    moreover have "extends (cells h) (cells h')"
      unfolding cells'
      by (rule extends_update) (simp_all add: t_def extends_trans [OF e4 e5])
    moreover have "ptr_ok (cells h') r"
      using t5 by (simp add: r cells' ptr_ok_def)
    ultimately show ?thesis by simp
  qed
qed

section \<open>The decoder\<close>

lemma in_tree_allocated: "in_tree cs root a \<Longrightarrow> a < length cs"
  by (induction rule: in_tree.induct) simp_all

lemma in_tree_has_root: "in_tree cs root a \<Longrightarrow> \<exists>r. root = Some r \<and> in_tree cs root r"
  by (induction rule: in_tree.induct) (auto intro: in_tree_root)

lemma closed_child:
  "closed_except {} cs \<Longrightarrow> a < length cs \<Longrightarrow>
   (leftChild (cs ! a) = Some c \<longrightarrow> c < length cs) \<and>
   (rightChild (cs ! a) = Some c \<longrightarrow> c < length cs)"
  by (auto simp: closed_except_def ptr_ok_def split: option.splits)

lemma MorseDecode_ok:
  assumes "decoder_ok s"
  shows "\<exists>c s'. MorseDecode b i s = Inr (c, s') \<and> decoder_ok s' \<and>
           heap s' = heap s \<and> chartree s' = chartree s"
proof -
  from assms obtain p where cl: "closed_except {} (cells (heap s))"
    and p: "temp s = Some p" and tr: "in_tree (cells (heap s)) (chartree s) p"
    by (auto simp: decoder_ok_def)
  from tr have lt: "p < length (cells (heap s))" by (rule in_tree_allocated)
  from tr obtain r where r: "chartree s = Some r" "in_tree (cells (heap s)) (chartree s) r"
    by (blast dest: in_tree_has_root)
  have d: "deref (heap s) (temp s) = Inr (cells (heap s) ! p)"
    using p lt by (simp add: deref_def)
  have reset: "decoder_ok (s\<lparr>temp := chartree s\<rparr>)"
    using cl r by (simp add: decoder_ok_def)
  have left: "decoder_ok (s\<lparr>temp := leftChild (cells (heap s) ! p)\<rparr>)"
    if "leftChild (cells (heap s) ! p) \<noteq> None"
  proof -
    from that obtain c where c: "leftChild (cells (heap s) ! p) = Some c" by auto
    with closed_child [OF cl lt] have "c < length (cells (heap s))" by simp
    with tr c have "in_tree (cells (heap s)) (chartree s) c" by (rule in_tree_left)
    with cl c show ?thesis by (simp add: decoder_ok_def)
  qed
  have right: "decoder_ok (s\<lparr>temp := rightChild (cells (heap s) ! p)\<rparr>)"
    if "rightChild (cells (heap s) ! p) \<noteq> None"
  proof -
    from that obtain c where c: "rightChild (cells (heap s) ! p) = Some c" by auto
    with closed_child [OF cl lt] have "c < length (cells (heap s))" by simp
    with tr c have "in_tree (cells (heap s)) (chartree s) c" by (rule in_tree_right)
    with cl c show ?thesis by (simp add: decoder_ok_def)
  qed
  show ?thesis
    using assms d reset left right by (cases i) (simp_all add: MorseDecode_def)
qed

lemma MorseDecode_seq_ok:
  "decoder_ok s \<Longrightarrow>
   \<exists>cs s'. MorseDecode_seq b ins s = Inr (cs, s') \<and> decoder_ok s' \<and>
      heap s' = heap s \<and> chartree s' = chartree s"
proof (induction ins arbitrary: s)
  case Nil
  then show ?case by simp
next
  case (Cons i ins)
  from MorseDecode_ok [OF Cons.prems, of b i]
  obtain c s1 where 1: "MorseDecode b i s = Inr (c, s1)" "decoder_ok s1"
    "heap s1 = heap s" "chartree s1 = chartree s" by blast
  from Cons.IH [OF 1(2)]
  obtain cs s2 where 2: "MorseDecode_seq b ins s1 = Inr (cs, s2)" "decoder_ok s2"
    "heap s2 = heap s1" "chartree s2 = chartree s1" by blast
  from 1 2 show ?case by simp
qed

text \<open>\<^verbatim>\<open>MorseInit\<close> succeeds exactly when the allocation of the root succeeds.\<close>

lemma MorseInit_result:
  "MorseInit b mal past s0 =
     (case mal (calls (heap s0)) of
        None \<Rightarrow> (STANDARD_ERROR b,
                 s0\<lparr>heap := snd (TreeCreate mal 6 (array_mem MorseTable past) 0 (heap s0)),
                    chartree := None\<rparr>)
      | Some j \<Rightarrow> (SUCCESS b,
                 s0\<lparr>heap := snd (TreeCreate mal 6 (array_mem MorseTable past) 0 (heap s0)),
                    chartree := Some (length (cells (heap s0))),
                    temp := Some (length (cells (heap s0)))\<rparr>))"
  using TreeCreate_result [of mal 6 "array_mem MorseTable past" 0 "heap s0"]
  by (cases "TreeCreate mal 6 (array_mem MorseTable past) 0 (heap s0)")
     (simp add: MorseInit_def split: option.splits)

lemma MorseInit_ok:
  assumes "closed_except {} (cells (heap s0))" and "SUCCESS b \<noteq> STANDARD_ERROR b"
    and "MorseInit b mal past s0 = (SUCCESS b, s)"
  shows "decoder_ok s \<and> temp s = chartree s"
proof -
  obtain t h where tc: "TreeCreate mal 6 (array_mem MorseTable past) 0 (heap s0) = (t, h)"
    by (cases "TreeCreate mal 6 (array_mem MorseTable past) 0 (heap s0)")
  from assms(2,3) tc obtain a where t: "t = Some a"
    and s: "s = s0\<lparr>heap := h, chartree := t, temp := t\<rparr>"
    by (auto simp: MorseInit_def Let_def split: if_splits)
  from TreeCreate_inv [OF tc assms(1)]
  have "closed_except {} (cells h)" and "ptr_ok (cells h) t" by simp_all
  with t have "closed_except {} (cells h)" and "in_tree (cells h) t a"
    by (auto simp: ptr_ok_def intro: in_tree_root)
  with t s show ?thesis by (simp add: decoder_ok_def)
qed

text \<open>
  The decoder after \<^verbatim>\<open>MorseInit\<close> from the start state, with an allocator that grants two
  requests: the root and its left child \<^verbatim>\<open>'E'\<close>, and no right child.
\<close>

lemma MorseInit_two_nodes:
  "MorseInit board0 (alloc_first 2) past boot =
     (1, \<lparr>heap = \<lparr>cells = [\<lparr>data = NUL, leftChild = Some 1, rightChild = None\<rparr>,
                          \<lparr>data = CHR ''E'', leftChild = None, rightChild = None\<rparr>],
                 calls = 5\<rparr>,
         chartree = Some 0, temp = Some 0\<rparr>)"
  by (simp add: MorseInit_def TreeCreate_eval alloc_first_def boot_def MorseTable_def
      board0_def)

text \<open>
  C5. An input that is none of the four symbols should reset the cursor to the root and
  return Failed. The code returns \<^verbatim>\<open>STANDARD_ERROR\<close> and leaves the cursor where it is:
  after \<^verbatim>\<open>MorseInit\<close> with every allocation granted, a dot and then the value 7, the cursor
  is on the left child of the root, cell 1, and the root is cell 0.
\<close>

theorem MorseDecode_invalid_keeps_cursor:
  "(case MorseInit board0 alloc_all (CHR ''#'') boot of
      (r, s) \<Rightarrow>
        (r, chartree s, temp s,
         case MorseDecode_seq board0 [MORSE_CHAR_DOT, MORSE_CHAR_OTHER 7] s of
           Inl e \<Rightarrow> None
         | Inr (cs, s') \<Rightarrow> Some (cs, chartree s', temp s', data (cells (heap s') ! 1)))) =
   (1, Some 0, Some 0,
    Some ([char_of (SUCCESS board0), char_of (STANDARD_ERROR board0)], Some 0, Some 1, CHR ''E''))"
  by (simp add: MorseInit_def TreeCreate_eval alloc_all_def boot_def MorseTable_def
      MorseDecode_def deref_def board0_def)

text \<open>
  C6. With the cursor on a node, EndOfCharacter returns the payload of that node and
  resets the cursor to the root. The payload of a node without a character is the
  sentinel \<^verbatim>\<open>'\0'\<close>; where \<^verbatim>\<open>STANDARD_ERROR\<close>, as a \<^verbatim>\<open>char\<close>, is that value, the call returns
  \<^verbatim>\<open>STANDARD_ERROR\<close> on such a node and the character on any other.
\<close>

theorem MorseDecode_END_OF_CHAR:
  assumes "temp s = Some p" and "p < length (cells (heap s))"
    and "char_of (STANDARD_ERROR b) = NUL"
  shows "MorseDecode b MORSE_CHAR_END_OF_CHAR s =
     Inr (if data (cells (heap s) ! p) = NUL then char_of (STANDARD_ERROR b)
          else data (cells (heap s) ! p),
          s\<lparr>temp := chartree s\<rparr>)"
  using assms by (simp add: MorseDecode_def deref_def)

theorem MorseDecode_END_OF_CHAR_witness:
  "MorseDecode board0 MORSE_CHAR_END_OF_CHAR
     (snd (MorseInit board0 (alloc_first 2) NUL boot)) =
     Inr (char_of (STANDARD_ERROR board0), snd (MorseInit board0 (alloc_first 2) NUL boot)) \<and>
   MorseDecode board0 MORSE_CHAR_END_OF_CHAR
     ((snd (MorseInit board0 (alloc_first 2) NUL boot))\<lparr>temp := Some 1\<rparr>) =
     Inr (CHR ''E'', snd (MorseInit board0 (alloc_first 2) NUL boot))"
proof -
  let ?s = "snd (MorseInit board0 (alloc_first 2) NUL boot)"
  have b: "char_of (STANDARD_ERROR board0) = NUL"
    by (simp add: board0_def NUL_def char_of_def)
  have 0: "temp ?s = Some 0" "0 < length (cells (heap ?s))"
    by (simp_all add: MorseInit_two_nodes)
  have 1: "temp (?s\<lparr>temp := Some 1\<rparr>) = Some 1" "1 < length (cells (heap (?s\<lparr>temp := Some 1\<rparr>)))"
    by (simp_all add: MorseInit_two_nodes)
  from MorseDecode_END_OF_CHAR [OF 0 b]
  have "MorseDecode board0 MORSE_CHAR_END_OF_CHAR ?s = Inr (char_of (STANDARD_ERROR board0), ?s)"
    by (simp add: MorseInit_two_nodes)
  moreover from MorseDecode_END_OF_CHAR [OF 1 b]
  have "MorseDecode board0 MORSE_CHAR_END_OF_CHAR (?s\<lparr>temp := Some 1\<rparr>) = Inr (CHR ''E'', ?s)"
    by (simp add: MorseInit_two_nodes NUL_def)
  ultimately show ?thesis by (rule conjI)
qed

text \<open>
  C7. With the cursor on a node, a dot whose left child is missing returns
  \<^verbatim>\<open>STANDARD_ERROR\<close> and changes nothing; otherwise the cursor moves to the left child and
  the call returns \<^verbatim>\<open>SUCCESS\<close>. A dash does the same with the right child.
\<close>

theorem MorseDecode_DOT_DASH:
  assumes "temp s = Some p" and "p < length (cells (heap s))"
  shows "MorseDecode b MORSE_CHAR_DOT s =
           (case leftChild (cells (heap s) ! p) of
              None \<Rightarrow> Inr (char_of (STANDARD_ERROR b), s)
            | Some c \<Rightarrow> Inr (char_of (SUCCESS b), s\<lparr>temp := Some c\<rparr>)) \<and>
         MorseDecode b MORSE_CHAR_DASH s =
           (case rightChild (cells (heap s) ! p) of
              None \<Rightarrow> Inr (char_of (STANDARD_ERROR b), s)
            | Some c \<Rightarrow> Inr (char_of (SUCCESS b), s\<lparr>temp := Some c\<rparr>))"
  using assms by (simp add: MorseDecode_def deref_def split: option.splits)

theorem MorseDecode_DOT_DASH_witness:
  "MorseDecode board0 MORSE_CHAR_DOT (snd (MorseInit board0 (alloc_first 2) NUL boot)) =
     Inr (char_of (SUCCESS board0),
          (snd (MorseInit board0 (alloc_first 2) NUL boot))\<lparr>temp := Some 1\<rparr>) \<and>
   MorseDecode board0 MORSE_CHAR_DASH (snd (MorseInit board0 (alloc_first 2) NUL boot)) =
     Inr (char_of (STANDARD_ERROR board0), snd (MorseInit board0 (alloc_first 2) NUL boot))"
proof -
  let ?s = "snd (MorseInit board0 (alloc_first 2) NUL boot)"
  have 0: "temp ?s = Some 0" "0 < length (cells (heap ?s))"
    by (simp_all add: MorseInit_two_nodes)
  from MorseDecode_DOT_DASH [OF 0, of board0] show ?thesis
    by (simp add: MorseInit_two_nodes)
qed

text \<open>
  On the heap of cells, where every granted block holds a whole \<^verbatim>\<open>Node\<close>: after
  \<^verbatim>\<open>MorseInit\<close> has returned \<^verbatim>\<open>SUCCESS\<close>, whatever the allocator answered, the cursor is on
  the root, and after any sequence of calls of \<^verbatim>\<open>MorseDecode\<close> it is on a node of the tree
  under \<^verbatim>\<open>chartree\<close>. This is what the decoder does when the nodes do not overlap; it says
  nothing of the blocks that line 41 of Tree.c asks for.
\<close>

lemma cursor_in_tree_on_whole_cells:
  assumes "closed_except {} (cells (heap s0))" and "SUCCESS b \<noteq> STANDARD_ERROR b"
    and "MorseInit b mal past s0 = (SUCCESS b, s)"
  shows "temp s = chartree s \<and>
     (\<exists>cs s' p. MorseDecode_seq b ins s = Inr (cs, s') \<and> heap s' = heap s \<and>
        chartree s' = chartree s \<and> temp s' = Some p \<and>
        in_tree (cells (heap s)) (chartree s) p)"
proof -
  from MorseInit_ok [OF assms] have ok: "decoder_ok s" and root: "temp s = chartree s"
    by simp_all
  from MorseDecode_seq_ok [OF ok, of b ins]
  obtain cs s' where "MorseDecode_seq b ins s = Inr (cs, s')" "decoder_ok s'"
    "heap s' = heap s" "chartree s' = chartree s" by blast
  with root show ?thesis by (auto simp: decoder_ok_def)
qed

lemmas mem_eval =
  MorseInit_mem_def TreeCreate_mem.simps malloc_sized_def store_def array_mem_def Let_def
  MorseTable_def MorseDecode_mem_def bump_def layout_data_first_def boot_mem_def board0_def

text \<open>
  C8. After a successful \<^verbatim>\<open>MorseInit\<close> the cursor should be on a node of the tree after any
  sequence of calls of \<^verbatim>\<open>MorseDecode\<close>. The code does not keep it there. Line 41 of Tree.c
  asks \<^verbatim>\<open>malloc\<close> for \<^verbatim>\<open>sizeof (tree)\<close>, the size of a pointer, and lines 45 to 52 write the
  three fields of a \<^verbatim>\<open>Node\<close>. With an allocator that grants the one word asked for, block
  behind block from address 4096, the nodes overlap: \<^verbatim>\<open>MorseInit\<close> returns \<^verbatim>\<open>SUCCESS\<close>
  with the cursor on the root, 127 blocks are granted, at 4096 to 4222, and after dot, dash,
  dash, dash, dot, dash, dot, each answered with \<^verbatim>\<open>SUCCESS\<close>, the cursor is 49, the
  character \<^verbatim>\<open>'1'\<close> read as a pointer, an address that \<^verbatim>\<open>malloc\<close> never returned. This
  holds whatever the memory held before.
\<close>

theorem cursor_leaves_tree:
  "(case MorseInit_mem layout_data_first board0 (bump 4096) (CHR ''#'') (boot_mem w) of
      (r, s) \<Rightarrow>
        (r, chartree_mem s, temp_mem s, temp_mem s \<in> set (granted (memory s)),
         length (granted (memory s)), hd (granted (memory s)), last (granted (memory s)),
         case MorseDecode_mem_seq layout_data_first board0
                [MORSE_CHAR_DOT, MORSE_CHAR_DASH, MORSE_CHAR_DASH, MORSE_CHAR_DASH,
                 MORSE_CHAR_DOT, MORSE_CHAR_DASH, MORSE_CHAR_DOT] s of
           Inl e \<Rightarrow> None
         | Inr (cs, s') \<Rightarrow>
             Some (cs, chartree_mem s', temp_mem s',
                   temp_mem s' \<in> set (granted (memory s'))))) =
   (SUCCESS board0, 4096, 4096, True, 127, 4096, 4222,
    Some ([char_of (SUCCESS board0), char_of (SUCCESS board0), char_of (SUCCESS board0),
           char_of (SUCCESS board0), char_of (SUCCESS board0), char_of (SUCCESS board0),
           char_of (SUCCESS board0)],
          4096, 49, False))"
  by (simp add: mem_eval)

section \<open>The event detector\<close>

lemma MorseCheckEvents_DASH:
  assumes "Mstate s = DASH"
  shows "MorseCheckEvents len btn s =
     (if btn = BUTTON_EVENT_4UP
      then (MORSE_EVENT_DASH, s\<lparr>increment := 0, first := btn, Mstate := INTER_LETTER\<rparr>)
      else (MORSE_EVENT_NONE, s\<lparr>increment := increment s + 1, first := btn\<rparr>))"
  using assms by (simp add: MorseCheckEvents_def Let_def)

lemma DASH_seq:
  "Mstate s = DASH \<Longrightarrow> BUTTON_EVENT_4UP \<notin> set btns \<Longrightarrow>
   MorseCheckEvents_seq len btns s =
     (replicate (length btns) MORSE_EVENT_NONE,
      s\<lparr>increment := increment s + of_nat (length btns), first := last (first s # btns)\<rparr>)"
proof (induction btns arbitrary: s)
  case Nil
  then show ?case by simp
next
  case (Cons b bs)
  let ?s1 = "s\<lparr>increment := increment s + 1, first := b\<rparr>"
  from Cons.prems have step: "MorseCheckEvents len b s = (MORSE_EVENT_NONE, ?s1)"
    by (auto simp: MorseCheckEvents_DASH)
  from Cons.prems have "Mstate ?s1 = DASH" "BUTTON_EVENT_4UP \<notin> set bs" by simp_all
  from Cons.IH [OF this] step show ?case
    by (simp add: algebra_simps)
qed

text \<open>No tick returns \<^verbatim>\<open>MORSE_EVENT_INTER_LETTER\<close>, whatever the thresholds are.\<close>

lemma MorseCheckEvents_never_INTER_LETTER:
  "fst (MorseCheckEvents len btn s) \<noteq> MORSE_EVENT_INTER_LETTER"
  by (cases "Mstate s") (simp_all add: MorseCheckEvents_def Let_def)

text \<open>
  C3. In state INTER_LETTER, a Pressed edge on a tick where the counter has reached the
  letter gap (and is below the word gap) should give EndOfCharacter, the state DOT and a
  counter of 0. The code does not: a dot (Pressed, 24 quiet ticks, Released), 99 quiet
  ticks and Pressed on the tick where the counter reaches 100 give InterWord, the state
  WAITING and a counter of 100.
\<close>

theorem INTER_LETTER_Pressed_at_letter_gap:
  "MorseCheckEvents_seq lengths_100Hz
     ([BUTTON_EVENT_4DOWN] @ replicate 24 BUTTON_EVENT_NONE @ [BUTTON_EVENT_4UP] @
      replicate 99 BUTTON_EVENT_NONE @ [BUTTON_EVENT_4DOWN])
     detector_init =
   (replicate 25 MORSE_EVENT_NONE @ [MORSE_EVENT_DOT] @ replicate 99 MORSE_EVENT_NONE @
      [MORSE_EVENT_INTER_WORD],
    \<lparr>Mstate = WAITING, first = BUTTON_EVENT_4DOWN, increment = 100\<rparr>)"
  by code_simp

text \<open>
  C4. After a dot, InterWord should come when the release has lasted the word gap, 200
  ticks. The code emits it on the 100th tick of the release, when the counter reaches the
  letter gap, and nothing on the 200th.
\<close>

theorem InterWord_at_letter_gap:
  "MorseCheckEvents_seq lengths_100Hz
     ([BUTTON_EVENT_4DOWN] @ replicate 24 BUTTON_EVENT_NONE @ [BUTTON_EVENT_4UP] @
      replicate 200 BUTTON_EVENT_NONE)
     detector_init =
   (replicate 25 MORSE_EVENT_NONE @ [MORSE_EVENT_DOT] @ replicate 99 MORSE_EVENT_NONE @
      [MORSE_EVENT_INTER_WORD] @ replicate 100 MORSE_EVENT_NONE,
    \<lparr>Mstate = WAITING, first = BUTTON_EVENT_NONE, increment = 0\<rparr>)"
  by code_simp

text \<open>
  C9. In state INTER_LETTER, on a tick where the counter reaches the threshold of the
  inter-word check and Pressed is observed, the detector returns InterWord and goes to
  WAITING. The Pressed edge is dropped: the next tick depends on its own sample only, and
  starts a DOT only if that sample is Pressed again.
\<close>

theorem InterWord_precedes_Pressed:
  assumes "Mstate s = INTER_LETTER"
    and "MORSE_EVENT_LENGTH_UP_INTER_LETTER len \<le>s increment s + 1"
  shows "MorseCheckEvents len BUTTON_EVENT_4DOWN s =
           (MORSE_EVENT_INTER_WORD,
            \<lparr>Mstate = WAITING, first = BUTTON_EVENT_4DOWN, increment = increment s + 1\<rparr>) \<and>
         MorseCheckEvents len btn (snd (MorseCheckEvents len BUTTON_EVENT_4DOWN s)) =
           (MORSE_EVENT_NONE,
            \<lparr>Mstate = (if btn = BUTTON_EVENT_4DOWN then DOT else WAITING),
             first = btn, increment = 0\<rparr>)"
  using assms by (simp add: MorseCheckEvents_def Let_def)

theorem InterWord_precedes_Pressed_witness:
  "MorseCheckEvents lengths_100Hz BUTTON_EVENT_4DOWN
     \<lparr>Mstate = INTER_LETTER, first = BUTTON_EVENT_NONE, increment = 99\<rparr> =
     (MORSE_EVENT_INTER_WORD,
      \<lparr>Mstate = WAITING, first = BUTTON_EVENT_4DOWN, increment = 100\<rparr>) \<and>
   MorseCheckEvents lengths_100Hz BUTTON_EVENT_NONE
     (snd (MorseCheckEvents lengths_100Hz BUTTON_EVENT_4DOWN
        \<lparr>Mstate = INTER_LETTER, first = BUTTON_EVENT_NONE, increment = 99\<rparr>)) =
     (MORSE_EVENT_NONE, \<lparr>Mstate = WAITING, first = BUTTON_EVENT_NONE, increment = 0\<rparr>)"
proof -
  let ?s = "\<lparr>Mstate = INTER_LETTER, first = BUTTON_EVENT_NONE, increment = 99\<rparr>"
  have 1: "Mstate ?s = INTER_LETTER" by simp
  have 2: "MORSE_EVENT_LENGTH_UP_INTER_LETTER lengths_100Hz \<le>s increment ?s + 1"
    by (simp add: lengths_100Hz_def)
  note t = InterWord_precedes_Pressed [OF 1 2, of BUTTON_EVENT_NONE]
  from t [THEN conjunct1]
  have a: "MorseCheckEvents lengths_100Hz BUTTON_EVENT_4DOWN ?s =
     (MORSE_EVENT_INTER_WORD,
      \<lparr>Mstate = WAITING, first = BUTTON_EVENT_4DOWN, increment = 100\<rparr>)"
    by simp
  from t [THEN conjunct2]
  have b: "MorseCheckEvents lengths_100Hz BUTTON_EVENT_NONE
     (snd (MorseCheckEvents lengths_100Hz BUTTON_EVENT_4DOWN ?s)) =
     (MORSE_EVENT_NONE, \<lparr>Mstate = WAITING, first = BUTTON_EVENT_NONE, increment = 0\<rparr>)"
    by simp
  from a b show ?thesis by (rule conjI)
qed

text \<open>
  C10. In state DASH, any number of consecutive ticks without a Released edge give no event
  and leave the state DASH, the counter counting on (it wraps around at 32 bits and is not
  read in this state). The tick on which Released is observed gives the Dash event, a
  counter of 0 and the state INTER_LETTER.
\<close>

theorem DASH_held_until_Released:
  assumes "Mstate s = DASH" and "BUTTON_EVENT_4UP \<notin> set btns"
  shows "fst (MorseCheckEvents_seq len btns s) = replicate (length btns) MORSE_EVENT_NONE \<and>
         Mstate (snd (MorseCheckEvents_seq len btns s)) = DASH \<and>
         increment (snd (MorseCheckEvents_seq len btns s)) = increment s + of_nat (length btns) \<and>
         MorseCheckEvents len BUTTON_EVENT_4UP (snd (MorseCheckEvents_seq len btns s)) =
           (MORSE_EVENT_DASH,
            \<lparr>Mstate = INTER_LETTER, first = BUTTON_EVENT_4UP, increment = 0\<rparr>)"
  using assms by (simp add: DASH_seq MorseCheckEvents_DASH)

theorem DASH_held_until_Released_witness:
  "fst (MorseCheckEvents_seq lengths_100Hz (replicate 1000 BUTTON_EVENT_NONE)
          \<lparr>Mstate = DASH, first = BUTTON_EVENT_NONE, increment = 51\<rparr>) =
     replicate 1000 MORSE_EVENT_NONE \<and>
   Mstate (snd (MorseCheckEvents_seq lengths_100Hz (replicate 1000 BUTTON_EVENT_NONE)
          \<lparr>Mstate = DASH, first = BUTTON_EVENT_NONE, increment = 51\<rparr>)) = DASH \<and>
   increment (snd (MorseCheckEvents_seq lengths_100Hz (replicate 1000 BUTTON_EVENT_NONE)
          \<lparr>Mstate = DASH, first = BUTTON_EVENT_NONE, increment = 51\<rparr>)) = 1051 \<and>
   MorseCheckEvents lengths_100Hz BUTTON_EVENT_4UP
     (snd (MorseCheckEvents_seq lengths_100Hz (replicate 1000 BUTTON_EVENT_NONE)
          \<lparr>Mstate = DASH, first = BUTTON_EVENT_NONE, increment = 51\<rparr>)) =
     (MORSE_EVENT_DASH, \<lparr>Mstate = INTER_LETTER, first = BUTTON_EVENT_4UP, increment = 0\<rparr>)"
proof -
  let ?s = "\<lparr>Mstate = DASH, first = BUTTON_EVENT_NONE, increment = 51\<rparr>"
  have 1: "Mstate ?s = DASH" by simp
  have 2: "BUTTON_EVENT_4UP \<notin> set (replicate 1000 BUTTON_EVENT_NONE)" by simp
  from DASH_held_until_Released [OF 1 2, of lengths_100Hz] show ?thesis by simp
qed

end
